theory Spec2Isabelle
  imports Main
begin

section \<open>Data model\<close>

text \<open>
  Go strings and byte slices are sequences of bytes; both are modelled as \<open>string\<close>
  (a list of 8-bit characters). Go's \<open>int\<close> is modelled as \<open>int\<close>; the only place where
  the 64-bit range matters is \<open>strconv.Atoi\<close>, whose clamping is written out.
\<close>

type_synonym bytes = string

datatype signal = SIGQUIT | SIGPIPE

text \<open>A run-time panic of the Go program (the only one reachable is a slice index out of range).\<close>

datatype error = IndexOutOfRange

text \<open>
  Every call that leaves the process is recorded as an event, in program order. Calls whose
  outcome the code branches on carry that outcome.
\<close>

datatype event =
    EvGetProcessInfo int
  | EvEnterNS int string
  | EvSetegid int
  | EvSeteuid int
  | EvGetTmpPath int
  | EvSignalIgnore signal
  | EvStat string
  | EvCreate string bool
  | EvFileClose string
  | EvRemove string
  | EvKill int signal
  | EvSleep int
  | EvSocket
  | EvConnect string
  | EvWrite bytes
  | EvRead nat
  | EvClose
  | EvSend bytes
  | EvCloseOut
  | EvLog string
  | EvPrint string
  | EvEnableDynamicAgentLoading int

text \<open>One delivery on the control socket: some bytes, or a failing read.\<close>

datatype rd = Data bytes | Fail

text \<open>
  The state that the calls change or consume: the effective user and group of the running
  process, the files present in the current mount namespace, the answers that successive
  \<open>stat\<close> calls on the control-socket path will give (is it there, and a socket?),
  and what the target will deliver on the connected socket.
\<close>

record world =
  euid :: int
  egid :: int
  files :: "string set"
  checks :: "bool list"
  sock :: "rd list"

text \<open>
  The answers of the operating system and of the package \<open>util\<close> (not part of the sources
  at hand) that the code only reads. A field named \<open>..._err\<close> says that the call returns
  a non-nil error.
\<close>

record env =
  proc_info :: "int \<Rightarrow> (int \<times> int \<times> int) option"
  enter_ns :: "int \<Rightarrow> string \<Rightarrow> int"
  tmp_path :: "int \<Rightarrow> string"
  setegid_err :: "int \<Rightarrow> bool"
  seteuid_err :: "int \<Rightarrow> bool"
  create_err :: "string \<Rightarrow> bool"
  close_err :: "string \<Rightarrow> bool"
  remove_err :: "string \<Rightarrow> bool"
  stat_uid :: "string \<Rightarrow> int"
  socket_err :: bool
  connect_err :: "string \<Rightarrow> bool"
  write_err :: "bytes \<Rightarrow> bool"

section \<open>Library functions of Go used by the program\<close>

definition Millisecond :: int where
  "Millisecond = 1000000"

definition Second :: int where
  "Second = 1000 * Millisecond"

text \<open>\<open>fmt.Sprintf("%d", i)\<close>: the decimal digits of an integer.\<close>

fun nat_dec :: "nat \<Rightarrow> string" where
  "nat_dec n =
     (if n < 10 then [''0123456789'' ! n]
      else nat_dec (n div 10) @ [''0123456789'' ! (n mod 10)])"

declare nat_dec.simps [simp del]

definition Itoa :: "int \<Rightarrow> string" where
  "Itoa i = (if i < 0 then CHR ''-'' # nat_dec (nat (- i)) else nat_dec (nat i))"

definition is_digit :: "char \<Rightarrow> bool" where
  "is_digit c = ((48::nat) \<le> of_char c \<and> of_char c \<le> (57::nat))"

definition digits_val :: "string \<Rightarrow> nat" where
  "digits_val s = fold (\<lambda>c a. a * 10 + (of_char c - 48)) s 0"

text \<open>
  \<open>strconv.Atoi\<close> on a 64-bit platform: an optional sign followed by one or more decimal
  digits and nothing else. A syntax error gives value 0; a value out of the \<open>int64\<close> range
  gives the nearest bound. The second component says that the error is non-nil.
\<close>

definition Atoi :: "string \<Rightarrow> int \<times> bool" where
  "Atoi s =
     (let neg = (s \<noteq> [] \<and> hd s = CHR ''-'');
          body = (if s \<noteq> [] \<and> (hd s = CHR ''-'' \<or> hd s = CHR ''+'') then tl s else s)
      in if body = [] \<or> \<not> list_all is_digit body then (0, True)
         else (let v = (if neg then - int (digits_val body) else int (digits_val body))
               in if v > 9223372036854775807 then (9223372036854775807, True)
                  else if v < - 9223372036854775808 then (- 9223372036854775808, True)
                  else (v, False)))"

text \<open>\<open>strings.HasPrefix\<close>.\<close>

definition HasPrefix :: "string \<Rightarrow> string \<Rightarrow> bool" where
  "HasPrefix s p = (take (length p) s = p)"

text \<open>
  \<open>syscall.Read(fd, buf)\<close> with \<open>len(buf) = L\<close> on a stream socket: at most \<open>L\<close> bytes
  of the next delivery are returned and the rest stays queued; an exhausted stream reads
  0 bytes. \<open>None\<close> is a non-nil error.
\<close>

fun Read :: "nat \<Rightarrow> rd list \<Rightarrow> bytes option \<times> rd list" where
  "Read L [] = (Some [], [])"
| "Read L (Fail # rest) = (None, rest)"
| "Read L (Data bs # rest) =
     (Some (take L bs), if drop L bs = [] then rest else Data (drop L bs) # rest)"

text \<open>
  \<open>os.Create\<close> makes the path exist unless it fails (the first component of the result
  says that it failed). \<open>os.Remove\<close> makes the path absent unless it fails; the program
  discards the result of every \<open>os.Remove\<close>, so a failure only shows in the files left.
\<close>

definition os_Create :: "env \<Rightarrow> string \<Rightarrow> world \<Rightarrow> bool \<times> world" where
  "os_Create e path w =
     (if create_err e path then (True, w) else (False, w\<lparr>files := insert path (files w)\<rparr>))"

definition os_Remove :: "env \<Rightarrow> string \<Rightarrow> world \<Rightarrow> world" where
  "os_Remove e path w = (if remove_err e path then w else w\<lparr>files := files w - {path}\<rparr>)"

section \<open>Package jvm\<close>

subsection \<open>The three path formats\<close>

text \<open>\<open>fmt.Sprintf("%s/.java_pid%d", tmpPath, pid)\<close>\<close>

definition java_pid_path :: "string \<Rightarrow> int \<Rightarrow> string" where
  "java_pid_path tmpPath pid = tmpPath @ ''/.java_pid'' @ Itoa pid"

text \<open>\<open>fmt.Sprintf("/proc/%d/cwd/.attach_pid%d", attachPid, nspid)\<close>\<close>

definition cwd_attach_path :: "int \<Rightarrow> int \<Rightarrow> string" where
  "cwd_attach_path attachPid nspid = ''/proc/'' @ Itoa attachPid @ ''/cwd/.attach_pid'' @ Itoa nspid"

text \<open>\<open>fmt.Sprintf("%s/.attach_pid%d", tmpPath, nspid)\<close>\<close>

definition tmp_attach_path :: "string \<Rightarrow> int \<Rightarrow> string" where
  "tmp_attach_path tmpPath nspid = tmpPath @ ''/.attach_pid'' @ Itoa nspid"

subsection \<open>checkSocket and getFileOwner\<close>

definition checkSocket :: "int \<Rightarrow> string \<Rightarrow> world \<Rightarrow> bool \<times> world \<times> event list" where
  "checkSocket pid tmpPath w =
     (let path = java_pid_path tmpPath pid
      in (case checks w of [] \<Rightarrow> False | b # _ \<Rightarrow> b,
          w\<lparr>checks := tl (checks w)\<rparr>,
          [EvStat path]))"

definition getFileOwner :: "env \<Rightarrow> string \<Rightarrow> world \<Rightarrow> int" where
  "getFileOwner e path w = (if path \<notin> files w then - 1 else stat_uid e path)"

subsection \<open>startAttachMechanism\<close>

text \<open>The polling loop of \<open>startAttachMechanism\<close>, from loop counter \<open>i\<close> and delay \<open>ts\<close>.\<close>

function poll ::
  "env \<Rightarrow> int \<Rightarrow> int \<Rightarrow> int \<Rightarrow> string \<Rightarrow> string \<Rightarrow> world \<Rightarrow> bool \<times> world \<times> event list" where
  "poll e i ts nspid tmpPath path w =
     (if i < 300 then
        (case checkSocket nspid tmpPath w of (found, w1, ev1) \<Rightarrow>
           if found then (True, os_Remove e path w1, [EvSleep ts] @ ev1 @ [EvRemove path])
           else (case poll e (i + 1) (ts + 20 * Millisecond) nspid tmpPath path w1 of
                   (r, w2, evs) \<Rightarrow> (r, w2, [EvSleep ts] @ ev1 @ evs)))
      else (False, os_Remove e path w, [EvRemove path]))"
  by pat_completeness auto
termination
  by (relation "measure (\<lambda>(e, i, ts, nspid, tmpPath, path, w). nat (300 - i))") auto

declare poll.simps [simp del]

definition startAttachMechanism ::
  "env \<Rightarrow> int \<Rightarrow> int \<Rightarrow> int \<Rightarrow> string \<Rightarrow> world \<Rightarrow> bool \<times> world \<times> event list" where
  "startAttachMechanism e pid nspid attachPid tmpPath w =
     (let path = cwd_attach_path attachPid nspid;
          (err, w1) = os_Create e path w;
          closed = (\<not> err \<and> \<not> close_err e path);
          mismatch = (closed \<and> getFileOwner e path w1 \<noteq> euid w1);
          ev1 = [EvCreate path (\<not> err)] @ (if err then [] else [EvFileClose path])
                @ (if closed then [EvStat path] else [])
      in if err \<or> mismatch then
           (let w2 = os_Remove e path w1;
                path2 = tmp_attach_path tmpPath nspid;
                (err2, w3) = os_Create e path2 w2;
                ev2 = ev1 @ [EvRemove path, EvCreate path2 (\<not> err2)]
            in if err2 then (False, w3, ev2)
               else (case poll e 0 (20 * Millisecond) nspid tmpPath path2 w3 of
                       (r, w4, evs) \<Rightarrow>
                         (r, w4, ev2 @ [EvFileClose path2, EvKill pid SIGQUIT] @ evs)))
         else (case poll e 0 (20 * Millisecond) nspid tmpPath path w1 of
                 (r, w4, evs) \<Rightarrow> (r, w4, ev1 @ [EvKill pid SIGQUIT] @ evs)))"

subsection \<open>connectSocket and writeCommand\<close>

text \<open>The result is \<open>True\<close> when a connected descriptor is returned.\<close>

definition connectSocket :: "env \<Rightarrow> int \<Rightarrow> string \<Rightarrow> bool \<times> event list" where
  "connectSocket e pid tmpPath =
     (let addr = java_pid_path tmpPath pid
      in if socket_err e then (False, [EvSocket])
         else if connect_err e addr then (False, [EvSocket, EvConnect addr, EvClose])
         else (True, [EvSocket, EvConnect addr]))"

text \<open>The loop of \<open>writeCommand\<close> over the four argument slots.\<close>

function writeCommand_loop :: "int \<Rightarrow> string list \<Rightarrow> bytes \<Rightarrow> bytes" where
  "writeCommand_loop i args request =
     (if i < 4 then
        writeCommand_loop (i + 1) args
          ((if i < int (length args) then request @ args ! nat i else request) @ [CHR 0x00])
      else request)"
  by pat_completeness auto
termination
  by (relation "measure (\<lambda>(i, args, request). nat (4 - i))") auto

declare writeCommand_loop.simps [simp del]

text \<open>The result is \<open>True\<close> when the write fails.\<close>

definition writeCommand :: "env \<Rightarrow> string list \<Rightarrow> bool \<times> event list" where
  "writeCommand e args =
     (let request = [];
          request = request @ [CHR ''1''];
          request = request @ [CHR 0x00];
          request = writeCommand_loop 0 args request
      in (write_err e request, [EvWrite request]))"

subsection \<open>readResponse\<close>

text \<open>
  The loop that is meant to collect the rest of the reply to \<open>load\<close>. \<open>buf\<close> is the
  slice as it stands (its length is \<open>len(buf)\<close>); a read into \<open>buf[total:]\<close> overwrites
  the bytes from position \<open>total\<close> on.
\<close>

function readMore :: "nat \<Rightarrow> bytes \<Rightarrow> rd list \<Rightarrow> nat \<times> bytes \<times> rd list \<times> event list" where
  "readMore tot buf s =
     (if int tot < int (length buf) - 1 then
        (case Read (length buf - tot) s of
           (None, s') \<Rightarrow> (tot, buf, s', [EvRead (length buf - tot)])
         | (Some d, s') \<Rightarrow>
             if length d = 0 then (tot, buf, s', [EvRead (length buf - tot)])
             else (case readMore (tot + length d)
                          (take tot buf @ d @ drop (tot + length d) buf) s' of
                     (t, b, s'', evs) \<Rightarrow> (t, b, s'', EvRead (length buf - tot) # evs)))
      else (tot, buf, s, []))"
  by pat_completeness auto
termination
proof (relation "measure (\<lambda>(tot, buf, s). length buf - tot)")
  show "wf (measure (\<lambda>(tot, buf, s). length buf - tot))"
    by simp
next
  fix tot :: nat and buf :: bytes and s x s' d
  assume guard: "int tot < int (length buf) - 1"
    and rd: "(x, s') = Read (length buf - tot) s"
    and some: "x = Some d"
    and ne: "length d \<noteq> 0"
  have "length d \<le> length buf - tot"
  proof (cases s)
    case Nil
    with rd some ne show ?thesis by simp
  next
    case (Cons r rest)
    with rd some show ?thesis by (cases r) auto
  qed
  moreover from ne have "0 < length d"
    by simp
  ultimately have "length buf - (tot + length d) < length buf - tot"
    using guard by arith
  then show "((tot + length d, take tot buf @ d @ drop (tot + length d) buf, s'),
         (tot, buf, s)) \<in> measure (\<lambda>(tot, buf, s). length buf - tot)"
    using guard by simp
qed

declare readMore.simps [simp del]

text \<open>The bytes still to come on the socket, counting one for every delivery.\<close>

fun pending :: "rd list \<Rightarrow> nat" where
  "pending [] = 0"
| "pending (Fail # rest) = Suc (pending rest)"
| "pending (Data bs # rest) = Suc (length bs + pending rest)"

text \<open>The relay loop at the end of \<open>readResponse\<close>, reading into a buffer of length \<open>L\<close>.\<close>

function drain :: "nat \<Rightarrow> rd list \<Rightarrow> rd list \<times> event list" where
  "drain L s =
     (case Read L s of
        (None, s') \<Rightarrow> (s', [EvRead L])
      | (Some d, s') \<Rightarrow>
          if length d = 0 then (s', [EvRead L])
          else (case drain L s' of (s'', evs) \<Rightarrow> (s'', [EvRead L, EvSend d] @ evs)))"
  by pat_completeness auto
termination
proof (relation "measure (\<lambda>(L, s). pending s)")
  show "wf (measure (\<lambda>(L, s). pending s))"
    by simp
next
  fix L :: nat and s x s' d
  assume rd: "(x, s') = Read L s" and some: "x = Some d" and ne: "length d \<noteq> 0"
  have "pending s' < pending s"
  proof (cases s)
    case Nil
    with rd some ne show ?thesis by simp
  next
    case (Cons r rest)
    with rd some ne show ?thesis by (cases r) (auto split: if_splits)
  qed
  then show "((L, s'), (L, s)) \<in> measure (\<lambda>(L, s). pending s)"
    by simp
qed

declare drain.simps [simp del]

text \<open>
  The status that the \<open>load\<close> branch derives from the collected bytes. Indexing
  \<open>buf[2]\<close> on a slice of length 2 panics.
\<close>

definition load_status :: "int \<Rightarrow> bytes \<Rightarrow> error + int" where
  "load_status result buf =
     (if result = 0 \<and> length buf \<ge> 2 then
        (if HasPrefix (drop 2 buf) ''return code: '' then Inr (fst (Atoi (drop 15 buf)))
         else if length buf \<le> 2 then Inl IndexOutOfRange
         else if is_digit (buf ! 2) \<or> buf ! 2 = CHR ''-'' then Inr (fst (Atoi (drop 2 buf)))
         else Inr (- 1))
      else Inr result)"

text \<open>
  \<open>readResponse\<close>. Every send on \<open>out\<close> is taken to be received (the relay started by
  \<open>main\<close> is always ready); it is recorded as an event.
\<close>

definition readResponse :: "string list \<Rightarrow> world \<Rightarrow> (error + int) \<times> world \<times> event list" where
  "readResponse args w =
     (case Read 8192 (sock w) of
        (None, s1) \<Rightarrow>
          (Inr 1, w\<lparr>sock := s1\<rparr>, [EvRead 8192, EvLog ''error reading response from JVM''])
      | (Some first, s1) \<Rightarrow>
          if length first = 0 then
            (Inr 1, w\<lparr>sock := s1\<rparr>,
             [EvRead 8192, EvLog ''unexpected EOF while reading response from the JVM''])
          else
            (let n = length first;
                 buf = take n first;
                 result = fst (Atoi (take n buf))
             in if length args > 0 \<and> args ! 0 = ''load'' then
                  (case readMore n buf s1 of (tot, buf1, s2, ev2) \<Rightarrow>
                     (let buf2 = take tot buf1 in
                      case load_status result buf2 of
                        Inl err \<Rightarrow> (Inl err, w\<lparr>sock := s2\<rparr>, [EvRead 8192] @ ev2)
                      | Inr result' \<Rightarrow>
                          (case drain (length buf2) s2 of (s3, ev3) \<Rightarrow>
                             (Inr result', w\<lparr>sock := s3\<rparr>,
                              [EvRead 8192] @ ev2 @ [EvLog ''JVM response''] @ ev3
                              @ [EvSend [CHR 0x0A]]))))
                else
                  (case drain (length buf) s1 of (s3, ev3) \<Rightarrow>
                     (Inr result, w\<lparr>sock := s3\<rparr>,
                      [EvRead 8192, EvLog ''JVM response''] @ ev3 @ [EvSend [CHR 0x0A]]))))"

subsection \<open>jattachHotspot and Jattach\<close>

text \<open>The deferred \<open>syscall.Close(fd)\<close> runs on every return after the connect, and on a panic.\<close>

definition jattachHotspot ::
  "env \<Rightarrow> int \<Rightarrow> int \<Rightarrow> int \<Rightarrow> string list \<Rightarrow> string \<Rightarrow> world
     \<Rightarrow> (error + int) \<times> world \<times> event list" where
  "jattachHotspot e pid nspid attachPid args tmpPath w =
     (case checkSocket nspid tmpPath w of (present, w1, ev1) \<Rightarrow>
        (case (if present then (True, w1, [])
               else startAttachMechanism e pid nspid attachPid tmpPath w1) of
           (started, w2, ev2) \<Rightarrow>
             if \<not> present \<and> \<not> started then
               (Inr 1, w2, ev1 @ ev2 @ [EvLog ''could not start the attach mechanism''])
             else
               (case connectSocket e nspid tmpPath of (connected, ev3) \<Rightarrow>
                  if \<not> connected then
                    (Inr 1, w2, ev1 @ ev2 @ ev3 @ [EvLog ''could not connect to JVM socket''])
                  else
                    (case writeCommand e args of (werr, ev4) \<Rightarrow>
                       if werr then
                         (Inr 1, w2,
                          ev1 @ ev2 @ ev3 @ [EvLog ''connected to the JVM''] @ ev4
                          @ [EvLog ''error writing to the JVM socket'', EvClose])
                       else
                         (case readResponse args w2 of (r, w3, ev5) \<Rightarrow>
                            (r, w3,
                             ev1 @ ev2 @ ev3 @ [EvLog ''connected to the JVM''] @ ev4 @ ev5
                             @ [EvClose]))))))"

text \<open>
  \<open>util.GetProcessInfo\<close>, \<open>util.EnterNS\<close> and \<open>util.GetTmpPath\<close> are taken from the
  environment. A successful \<open>Setegid\<close> or \<open>Seteuid\<close> changes the effective group or user
  of the process. The deferred \<open>close(out)\<close> is registered only on the path that reaches
  \<open>jattachHotspot\<close>; there it runs on return and on a panic.
\<close>

definition Jattach :: "env \<Rightarrow> int \<Rightarrow> string list \<Rightarrow> world \<Rightarrow> (error + int) \<times> world \<times> event list" where
  "Jattach e pid argv w =
     (let myUID = euid w;
          myGID = egid w
      in case proc_info e pid of
           None \<Rightarrow> (Inr 1, w, [EvGetProcessInfo pid, EvLog ''process not found''])
         | Some (targetUID, targetGID, nspid) \<Rightarrow>
             (let mntChanged = enter_ns e pid ''mnt'';
                  ev0 = [EvGetProcessInfo pid,
                         EvEnterNS pid ''net'', EvEnterNS pid ''ipc'', EvEnterNS pid ''mnt''];
                  gidCalled = (myGID \<noteq> targetGID);
                  gidFailed = (gidCalled \<and> setegid_err e targetGID);
                  w1 = (if gidCalled \<and> \<not> gidFailed then w\<lparr>egid := targetGID\<rparr> else w);
                  uidCalled = (\<not> gidFailed \<and> myUID \<noteq> targetUID);
                  uidFailed = (uidCalled \<and> seteuid_err e targetUID);
                  w2 = (if uidCalled \<and> \<not> uidFailed then w1\<lparr>euid := targetUID\<rparr> else w1);
                  evG = (if gidCalled then [EvSetegid targetGID] else []);
                  evU = (if uidCalled then [EvSeteuid targetUID] else [])
              in if gidFailed \<or> uidFailed then
                   (Inr 1, w2,
                    ev0 @ evG @ evU
                    @ [EvLog ''failed to change credentials to match the target process''])
                 else
                   (let attachPid = (if mntChanged > 0 then nspid else pid);
                        tmpPath = tmp_path e attachPid
                    in case jattachHotspot e pid nspid attachPid argv tmpPath w2 of
                         (r, w', evs) \<Rightarrow>
                           (r, w',
                            ev0 @ evG @ evU @ [EvGetTmpPath attachPid, EvSignalIgnore SIGPIPE]
                            @ evs @ [EvCloseOut]))))"

section \<open>Command jattach\<close>

definition validCommand :: "string \<Rightarrow> bool" where
  "validCommand arg =
     (arg \<in> set [''load'', ''threaddump'', ''dumpheap'', ''setflag'', ''properties'',
                 ''jcmd'', ''inspectheap'', ''datadump'', ''printflag'', ''agentProperties''])"

definition usage :: "event list" where
  "usage =
     [EvPrint ''Usage: jattach <pid> <cmd> [args ...]'',
      EvPrint ''Commands:'',
      EvPrint ''    load  threaddump   dumpheap  setflag    properties'',
      EvPrint ''    jcmd  inspectheap  datadump  printflag  agentProperties'']"

text \<open>
  \<open>main\<close> of \<open>jattach.go\<close>. \<open>jvm.EnableDynamicAgentLoading\<close> is not part of the sources at
  hand: it is a parameter, giving for a PID the status and whether the error is non-nil.
  \<open>Args\<close> is \<open>os.Args\<close>. The result is the exit code. The relay that copies \<open>out\<close> to
  the standard output runs beside \<open>Jattach\<close>; what it receives are the \<open>EvSend\<close> events.
\<close>

definition main ::
  "(int \<Rightarrow> int \<times> bool) \<Rightarrow> env \<Rightarrow> string list \<Rightarrow> world \<Rightarrow> (error + int) \<times> world \<times> event list" where
  "main EnableDynamicAgentLoading e Args w =
     (if length Args < 3 then (Inr 1, w, usage)
      else
        (case Atoi (Args ! 1) of (pid, err) \<Rightarrow>
           if err \<or> pid \<le> 0 then
             (Inr 1, w, [EvPrint (Args ! 1 @ '' is not a valid process ID'')])
           else if \<not> validCommand (Args ! 2) then
             (Inr 1, w,
              [EvPrint (Args ! 2 @ '' is not a valid jattach command''),
               EvPrint ''Valid Commands:'',
               EvPrint ''    load  threaddump   dumpheap  setflag    properties'',
               EvPrint ''    jcmd  inspectheap  datadump  printflag  agentProperties''])
           else
             (case EnableDynamicAgentLoading pid of (status, err) \<Rightarrow>
                (let report =
                       (if err then EvPrint ''encountered error while enabling dynamic loading''
                        else EvPrint (''dynamic loading status '' @ Itoa status))
                 in case Jattach e pid (drop 2 Args) w of
                      (exitCode, w', evs) \<Rightarrow>
                        (exitCode, w', [EvEnableDynamicAgentLoading pid, report] @ evs)))))"

text \<open>
  \<open>main\<close> of the second copy of the command (\<open>unnamed/part_000\<close>), which reports through
  the logger instead of printing.
\<close>

definition main_part_000 ::
  "(int \<Rightarrow> int \<times> bool) \<Rightarrow> env \<Rightarrow> string list \<Rightarrow> world \<Rightarrow> (error + int) \<times> world \<times> event list" where
  "main_part_000 EnableDynamicAgentLoading e Args w =
     (if length Args < 3 then (Inr 1, w, usage)
      else
        (case Atoi (Args ! 1) of (pid, err) \<Rightarrow>
           if err \<or> pid \<le> 0 then
             (Inr 1, w, [EvPrint (Args ! 1 @ '' is not a valid process ID'')])
           else if \<not> validCommand (Args ! 2) then
             (Inr 1, w,
              [EvPrint (Args ! 2 @ '' is not a valid jattach command''),
               EvPrint ''Valid Commands:'',
               EvPrint ''    load  threaddump   dumpheap  setflag    properties'',
               EvPrint ''    jcmd  inspectheap  datadump  printflag  agentProperties''])
           else
             (case EnableDynamicAgentLoading pid of (status, err) \<Rightarrow>
                (let report =
                       (if err then EvLog ''encountered error while enabling dynamic loading''
                        else EvLog ''dynamic loading status'')
                 in case Jattach e pid (drop 2 Args) w of
                      (exitCode, w', evs) \<Rightarrow>
                        (exitCode, w', [EvEnableDynamicAgentLoading pid, report] @ evs)))))"

section \<open>Reading a run\<close>

text \<open>
  The result of a run is its return value (or panic), the world it leaves and the list of
  its events. The functions of this section select from that list what a claim speaks of.
\<close>

text \<open>The signals sent, and the credential switches attempted.\<close>

fun is_kill :: "event \<Rightarrow> bool" where
  "is_kill (EvKill p s) = True"
| "is_kill ev = False"

fun is_cred :: "event \<Rightarrow> bool" where
  "is_cred (EvSetegid g) = True"
| "is_cred (EvSeteuid u) = True"
| "is_cred ev = False"

text \<open>The durations slept, in nanoseconds and in order.\<close>

fun sleeps :: "event list \<Rightarrow> int list" where
  "sleeps [] = []"
| "sleeps (EvSleep d # evs) = d # sleeps evs"
| "sleeps (ev # evs) = sleeps evs"

text \<open>The kinds of event that the polling loop and the response reader produce.\<close>

definition poll_event :: "string \<Rightarrow> event \<Rightarrow> bool" where
  "poll_event path ev = ((\<exists>d. ev = EvSleep d) \<or> (\<exists>p. ev = EvStat p) \<or> ev = EvRemove path)"

definition io_event :: "event \<Rightarrow> bool" where
  "io_event ev = ((\<exists>n. ev = EvRead n) \<or> (\<exists>b. ev = EvSend b) \<or> (\<exists>m. ev = EvLog m))"

text \<open>
  A sample environment and world for concrete runs: user and group 1000, a target with the
  same credentials and the same PID in its namespace, no call failing (no removal either),
  the control socket never there and nothing to read.
\<close>

definition quiet_env :: env where
  "quiet_env =
     \<lparr>proc_info = (\<lambda>pid. Some (1000, 1000, pid)),
      enter_ns = (\<lambda>pid kind. 0),
      tmp_path = (\<lambda>pid. ''/tmp''),
      setegid_err = (\<lambda>gid. False),
      seteuid_err = (\<lambda>uid. False),
      create_err = (\<lambda>path. False),
      close_err = (\<lambda>path. False),
      remove_err = (\<lambda>path. False),
      stat_uid = (\<lambda>path. 1000),
      socket_err = False,
      connect_err = (\<lambda>path. False),
      write_err = (\<lambda>request. False)\<rparr>"

definition empty_world :: world where
  "empty_world = \<lparr>euid = 1000, egid = 1000, files = {}, checks = [], sock = []\<rparr>"

text \<open>
  The file in the working directory of the target is the trigger file when it could be
  created and either closing it failed or it belongs to the effective user \<open>uid\<close>.
\<close>

definition keeps_cwd :: "env \<Rightarrow> int \<Rightarrow> string \<Rightarrow> bool" where
  "keeps_cwd e uid path = (\<not> create_err e path \<and> (close_err e path \<or> stat_uid e path = uid))"

text \<open>
  The world after the file in the working directory was tried and given up, that is after
  \<open>os.Create\<close> and the \<open>os.Remove\<close> of line 39.
\<close>

definition cwd_world :: "env \<Rightarrow> string \<Rightarrow> world \<Rightarrow> world" where
  "cwd_world e path w =
     os_Remove e path (if create_err e path then w else w\<lparr>files := insert path (files w)\<rparr>)"

text \<open>The events of lines 37 and 38 of \<open>startAttachMechanism\<close>: create, close, stat.\<close>

definition cwd_events :: "env \<Rightarrow> string \<Rightarrow> event list" where
  "cwd_events e path =
     [EvCreate path (\<not> create_err e path)]
     @ (if create_err e path then [] else [EvFileClose path])
     @ (if \<not> create_err e path \<and> \<not> close_err e path then [EvStat path] else [])"

text \<open>
  The events that the claims about \<open>Jattach\<close> speak of: the two credential switches, the
  signal, and the closing of the output channel.
\<close>

fun landmark :: "event \<Rightarrow> bool" where
  "landmark (EvSetegid g) = True"
| "landmark (EvSeteuid u) = True"
| "landmark (EvKill p s) = True"
| "landmark EvCloseOut = True"
| "landmark ev = False"

text \<open>
  The credential step of \<open>Jattach\<close>, started in world \<open>w\<close>: whether it fails, the calls it
  makes, and the world it leaves.
\<close>

definition cred_failed :: "env \<Rightarrow> world \<Rightarrow> int \<Rightarrow> int \<Rightarrow> bool" where
  "cred_failed e w targetUID targetGID =
     ((egid w \<noteq> targetGID \<and> setegid_err e targetGID)
      \<or> (euid w \<noteq> targetUID \<and> seteuid_err e targetUID))"

definition cred_calls :: "env \<Rightarrow> world \<Rightarrow> int \<Rightarrow> int \<Rightarrow> event list" where
  "cred_calls e w targetUID targetGID =
     (if egid w \<noteq> targetGID then [EvSetegid targetGID] else [])
     @ (if \<not> (egid w \<noteq> targetGID \<and> setegid_err e targetGID) \<and> euid w \<noteq> targetUID
        then [EvSeteuid targetUID] else [])"

definition cred_world :: "env \<Rightarrow> world \<Rightarrow> int \<Rightarrow> int \<Rightarrow> world" where
  "cred_world e w targetUID targetGID =
     (if egid w \<noteq> targetGID \<and> setegid_err e targetGID then w
      else if euid w \<noteq> targetUID \<and> seteuid_err e targetUID then w\<lparr>egid := targetGID\<rparr>
      else w\<lparr>egid := targetGID, euid := targetUID\<rparr>)"

text \<open>The lookup of the target and the three namespace entries.\<close>

definition enter_events :: "int \<Rightarrow> event list" where
  "enter_events pid =
     [EvGetProcessInfo pid, EvEnterNS pid ''net'', EvEnterNS pid ''ipc'', EvEnterNS pid ''mnt'']"

section \<open>Auxiliary facts\<close>

subsection \<open>The polling loop\<close>

lemma checkSocket_files: "files (fst (snd (checkSocket n t w))) = files w"
  by (simp add: checkSocket_def Let_def)

lemma checkSocket_events: "snd (snd (checkSocket n t w)) = [EvStat (java_pid_path t n)]"
  by (simp add: checkSocket_def Let_def)

lemma poll_stop:
  "\<not> i < 300 \<Longrightarrow> poll e i ts nspid tmpPath path w = (False, os_Remove e path w, [EvRemove path])"
  by (subst poll.simps) simp

lemma poll_found:
  "i < 300 \<Longrightarrow> fst (checkSocket nspid tmpPath w) \<Longrightarrow>
     poll e i ts nspid tmpPath path w =
       (True, os_Remove e path (fst (snd (checkSocket nspid tmpPath w))),
        [EvSleep ts, EvStat (java_pid_path tmpPath nspid), EvRemove path])"
  by (subst poll.simps) (simp add: checkSocket_def Let_def)

lemma poll_next:
  "i < 300 \<Longrightarrow> \<not> fst (checkSocket nspid tmpPath w) \<Longrightarrow>
     poll e i ts nspid tmpPath path w =
       (let rest = poll e (i + 1) (ts + 20 * Millisecond) nspid tmpPath path
                     (fst (snd (checkSocket nspid tmpPath w)))
        in (fst rest, fst (snd rest),
            [EvSleep ts, EvStat (java_pid_path tmpPath nspid)] @ snd (snd rest)))"
  by (subst poll.simps) (simp add: checkSocket_def Let_def split: prod.splits)

lemma poll_induct [case_names stop found step]:
  assumes stop: "\<And>i ts w. \<not> i < 300 \<Longrightarrow> P i ts w"
    and found: "\<And>i ts w. i < 300 \<Longrightarrow> fst (checkSocket nspid tmpPath w) \<Longrightarrow> P i ts w"
    and step: "\<And>i ts w. i < 300 \<Longrightarrow> \<not> fst (checkSocket nspid tmpPath w) \<Longrightarrow>
               P (i + 1) (ts + 20 * Millisecond) (fst (snd (checkSocket nspid tmpPath w))) \<Longrightarrow> P i ts w"
  shows "P (i::int) (ts::int) (w::world)"
proof (induction "nat (300 - i)" arbitrary: i ts w)
  case 0
  then show ?case by (simp add: stop)
next
  case (Suc n i ts w)
  then have lt: "i < 300" by simp
  show ?case
  proof (cases "fst (checkSocket nspid tmpPath w)")
    case True
    with lt show ?thesis by (rule found)
  next
    case False
    from Suc.hyps(2) have "n = nat (300 - (i + 1))" by simp
    from lt False Suc.hyps(1) [OF this] show ?thesis by (rule step)
  qed
qed

lemma poll_files:
  "files (fst (snd (poll e i ts nspid tmpPath path w))) = files (os_Remove e path w)"
proof (induction i ts w rule: poll_induct [where nspid = nspid and tmpPath = tmpPath])
  case (stop i ts w)
  then show ?case by (simp add: poll_stop os_Remove_def)
next
  case (found i ts w)
  then show ?case by (simp add: poll_found os_Remove_def checkSocket_files)
next
  case (step i ts w)
  then show ?case by (simp add: poll_next checkSocket_files os_Remove_def Let_def)
qed

lemma poll_events:
  "list_all (poll_event path) (snd (snd (poll e i ts nspid tmpPath path w)))"
proof (induction i ts w rule: poll_induct [where nspid = nspid and tmpPath = tmpPath])
  case (stop i ts w)
  then show ?case by (simp add: poll_stop poll_event_def)
next
  case (found i ts w)
  then show ?case by (simp add: poll_found poll_event_def)
next
  case (step i ts w)
  then show ?case by (simp add: poll_next Let_def poll_event_def)
qed

lemma ramp_Suc:
  "ts # map (\<lambda>k. ts + d + d * int k) [0..<m] = map (\<lambda>k. ts + d * int k) [0..<Suc m]"
proof -
  have "map (\<lambda>k. ts + d * int k) [0..<Suc m]
          = (ts + d * int 0) # map ((\<lambda>k. ts + d * int k) \<circ> Suc) [0..<m]"
    by (simp only: map_upt_Suc comp_def)
  also have "\<dots> = ts # map (\<lambda>k. ts + d + d * int k) [0..<m]"
    by (simp add: algebra_simps)
  finally show ?thesis by simp
qed

lemma poll_sleeps:
  "\<exists>m. m \<le> nat (300 - i) \<and> (\<not> fst (poll e i ts nspid tmpPath path w) \<longrightarrow> m = nat (300 - i)) \<and>
       sleeps (snd (snd (poll e i ts nspid tmpPath path w)))
         = map (\<lambda>k. ts + 20 * Millisecond * int k) [0..<m]"
proof (induction i ts w rule: poll_induct [where nspid = nspid and tmpPath = tmpPath])
  case (stop i ts w)
  then show ?case by (simp add: poll_stop)
next
  case (found i ts w)
  then have "sleeps (snd (snd (poll e i ts nspid tmpPath path w)))
               = map (\<lambda>k. ts + 20 * Millisecond * int k) [0..<1]"
    and "fst (poll e i ts nspid tmpPath path w)" and "1 \<le> nat (300 - i)"
    by (simp_all add: poll_found)
  then show ?case by blast
next
  case (step i ts w)
  let ?w1 = "fst (snd (checkSocket nspid tmpPath w))"
  let ?rest = "poll e (i + 1) (ts + 20 * Millisecond) nspid tmpPath path ?w1"
  from step.IH obtain m where m: "m \<le> nat (300 - (i + 1))"
      "\<not> fst ?rest \<longrightarrow> m = nat (300 - (i + 1))"
      "sleeps (snd (snd ?rest)) = map (\<lambda>k. ts + 20 * Millisecond + 20 * Millisecond * int k) [0..<m]"
    by blast
  have r: "fst (poll e i ts nspid tmpPath path w) = fst ?rest"
    and evs: "sleeps (snd (snd (poll e i ts nspid tmpPath path w))) = ts # sleeps (snd (snd ?rest))"
    using step.hyps by (simp_all add: poll_next Let_def)
  have "sleeps (snd (snd (poll e i ts nspid tmpPath path w)))
          = map (\<lambda>k. ts + 20 * Millisecond * int k) [0..<Suc m]"
    unfolding evs m(3) by (rule ramp_Suc)
  moreover have "Suc m \<le> nat (300 - i)"
    using m(1) step.hyps(1) by arith
  moreover have "\<not> fst (poll e i ts nspid tmpPath path w) \<longrightarrow> Suc m = nat (300 - i)"
    using m(2) r step.hyps(1) by auto
  ultimately show ?case
    by blast
qed

lemma poll_absent:
  "checks w = [] \<Longrightarrow> \<not> fst (poll e i ts nspid tmpPath path w)"
proof (induction i ts w rule: poll_induct [where nspid = nspid and tmpPath = tmpPath])
  case (stop i ts w)
  then show ?case by (simp add: poll_stop)
next
  case (found i ts w)
  then show ?case by (simp add: checkSocket_def Let_def)
next
  case (step i ts w)
  then show ?case by (simp add: poll_next Let_def checkSocket_def)
qed

subsection \<open>The three ways through startAttachMechanism\<close>

lemma startAttachMechanism_cwd:
  assumes "keeps_cwd e (euid w) (cwd_attach_path attachPid nspid)"
  shows "startAttachMechanism e pid nspid attachPid tmpPath w =
     (let path = cwd_attach_path attachPid nspid;
          rest = poll e 0 (20 * Millisecond) nspid tmpPath path (w\<lparr>files := insert path (files w)\<rparr>)
      in (fst rest, fst (snd rest), cwd_events e path @ [EvKill pid SIGQUIT] @ snd (snd rest)))"
  using assms
  by (auto simp: startAttachMechanism_def keeps_cwd_def cwd_events_def Let_def os_Create_def
        getFileOwner_def split: prod.splits)

lemma startAttachMechanism_none:
  assumes "\<not> keeps_cwd e (euid w) (cwd_attach_path attachPid nspid)"
    and "create_err e (tmp_attach_path tmpPath nspid)"
  shows "startAttachMechanism e pid nspid attachPid tmpPath w =
     (let path = cwd_attach_path attachPid nspid
      in (False, cwd_world e path w,
          cwd_events e path @ [EvRemove path, EvCreate (tmp_attach_path tmpPath nspid) False]))"
  using assms
  by (auto simp: startAttachMechanism_def keeps_cwd_def cwd_events_def cwd_world_def Let_def
        os_Create_def getFileOwner_def split: prod.splits)

lemma startAttachMechanism_tmp:
  assumes "\<not> keeps_cwd e (euid w) (cwd_attach_path attachPid nspid)"
    and "\<not> create_err e (tmp_attach_path tmpPath nspid)"
  shows "startAttachMechanism e pid nspid attachPid tmpPath w =
     (let path = cwd_attach_path attachPid nspid;
          path2 = tmp_attach_path tmpPath nspid;
          rest = poll e 0 (20 * Millisecond) nspid tmpPath path2
                   ((cwd_world e path w)\<lparr>files := insert path2 (files (cwd_world e path w))\<rparr>)
      in (fst rest, fst (snd rest),
          cwd_events e path @ [EvRemove path, EvCreate path2 True, EvFileClose path2,
                               EvKill pid SIGQUIT] @ snd (snd rest)))"
  using assms
  by (auto simp: startAttachMechanism_def keeps_cwd_def cwd_events_def cwd_world_def Let_def
        os_Create_def getFileOwner_def split: prod.splits)

lemma create_poll: "EvCreate p b \<notin> set (snd (snd (poll e i ts nspid tmpPath path w)))"
  using poll_events [of path e i ts nspid tmpPath w]
  by (auto simp: list_all_iff poll_event_def)

lemma poll_last:
  "\<exists>pre. snd (snd (poll e i ts nspid tmpPath path w)) = pre @ [EvRemove path]
         \<and> (\<forall>p b. EvCreate p b \<notin> set pre)"
proof (induction i ts w rule: poll_induct [where nspid = nspid and tmpPath = tmpPath])
  case (stop i ts w)
  then show ?case by (simp add: poll_stop)
next
  case (found i ts w)
  then have "snd (snd (poll e i ts nspid tmpPath path w))
               = [EvSleep ts, EvStat (java_pid_path tmpPath nspid)] @ [EvRemove path]"
    by (simp add: poll_found)
  moreover have "\<forall>p b. EvCreate p b \<notin> set [EvSleep ts, EvStat (java_pid_path tmpPath nspid)]"
    by simp
  ultimately show ?case by blast
next
  case (step i ts w)
  let ?rest = "poll e (i + 1) (ts + 20 * Millisecond) nspid tmpPath path
                 (fst (snd (checkSocket nspid tmpPath w)))"
  from step.IH obtain pre where pre: "snd (snd ?rest) = pre @ [EvRemove path]"
      "\<forall>p b. EvCreate p b \<notin> set pre"
    by blast
  have "snd (snd (poll e i ts nspid tmpPath path w))
          = ([EvSleep ts, EvStat (java_pid_path tmpPath nspid)] @ pre) @ [EvRemove path]"
    using step.hyps pre(1) by (simp add: poll_next Let_def)
  moreover have "\<forall>p b. EvCreate p b \<notin> set ([EvSleep ts, EvStat (java_pid_path tmpPath nspid)] @ pre)"
    using pre(2) by simp
  ultimately show ?case by blast
qed

lemma cwd_world_removed: "\<not> remove_err e path \<Longrightarrow> path \<notin> files (cwd_world e path w)"
  by (simp add: cwd_world_def os_Remove_def)

lemma sleeps_cwd [simp]: "sleeps (cwd_events e path @ evs) = sleeps evs"
  by (simp add: cwd_events_def)

lemma create_cwd: "EvCreate p True \<in> set (cwd_events e path) \<Longrightarrow> p = path \<and> \<not> create_err e path"
  by (auto simp: cwd_events_def split: if_splits)

subsection \<open>The sample environment\<close>

lemma quiet_env_simps [simp]:
  "proc_info quiet_env pid = Some (1000, 1000, pid)"
  "enter_ns quiet_env pid kind = 0"
  "tmp_path quiet_env pid = ''/tmp''"
  "\<not> setegid_err quiet_env gid" "\<not> seteuid_err quiet_env uid"
  "\<not> create_err quiet_env path" "\<not> close_err quiet_env path"
  "\<not> remove_err quiet_env path"
  "stat_uid quiet_env path = 1000"
  "\<not> socket_err quiet_env" "\<not> connect_err quiet_env path" "\<not> write_err quiet_env request"
  by (simp_all add: quiet_env_def)

lemma empty_world_simps [simp]:
  "euid empty_world = 1000" "egid empty_world = 1000"
  "files empty_world = {}" "checks empty_world = []" "sock empty_world = []"
  by (simp_all add: empty_world_def)

subsection \<open>The response reader\<close>

lemma io_event_simps [simp]: "io_event (EvRead n)" "io_event (EvSend b)" "io_event (EvLog m)"
  by (simp_all add: io_event_def)

lemma readMore_at_end: "readMore (length buf) buf s = (length buf, buf, s, [])"
  by (simp add: readMore.simps)

lemma drain_events: "list_all io_event (snd (drain L s))"
proof (induction L s rule: drain.induct)
  case (1 L s)
  show ?case
  proof (cases "Read L s")
    case (Pair x s')
    show ?thesis
    proof (cases x)
      case None
      with Pair show ?thesis by (simp add: drain.simps [of L s])
    next
      case (Some d)
      show ?thesis
      proof (cases "length d = 0")
        case True
        with Pair Some show ?thesis by (simp add: drain.simps [of L s])
      next
        case False
        have "list_all io_event (snd (drain L s'))"
          using "1.IH" [OF Pair [symmetric] Some False] .
        with Pair Some False show ?thesis
          by (auto simp add: drain.simps [of L s] split: prod.splits)
      qed
    qed
  qed
qed

lemma readResponse_status:
  assumes "Read 8192 (sock w) = (Some first, s1)" and "first \<noteq> []"
  shows "fst (readResponse args w) =
           (if length args > 0 \<and> args ! 0 = ''load'' then load_status (fst (Atoi first)) first
            else Inr (fst (Atoi first)))"
  using assms
  by (auto simp: readResponse_def Let_def readMore_at_end split: prod.splits sum.splits)

lemma readResponse_events: "list_all io_event (snd (snd (readResponse args w)))"
proof (cases "Read 8192 (sock w)")
  case (Pair x s1)
  show ?thesis
  proof (cases x)
    case None
    with Pair show ?thesis by (simp add: readResponse_def)
  next
    case (Some first)
    show ?thesis
    proof (cases "first = []")
      case True
      with Pair Some show ?thesis by (simp add: readResponse_def)
    next
      case False
      have d: "list_all io_event (snd (drain (length first) s1))"
        by (rule drain_events)
      show ?thesis
      proof (cases "length args > 0 \<and> args ! 0 = ''load''")
        case True
        with Pair Some False d show ?thesis
          by (cases "load_status (fst (Atoi first)) first")
             (auto simp: readResponse_def Let_def readMore_at_end split: prod.splits)
      next
        case nl: False
        with Pair Some False d show ?thesis
          by (auto simp: readResponse_def Let_def split: prod.splits)
      qed
    qed
  qed
qed

subsection \<open>Landmarks of jattachHotspot\<close>

lemma landmark_poll: "filter landmark (snd (snd (poll e i ts nspid tmpPath path w))) = []"
  using poll_events [of path e i ts nspid tmpPath w]
  by (auto simp: list_all_iff poll_event_def filter_empty_conv)

lemma landmark_io: "list_all io_event evs \<Longrightarrow> filter landmark evs = []"
  by (auto simp: list_all_iff io_event_def filter_empty_conv)

lemma landmark_cwd [simp]: "filter landmark (cwd_events e path) = []"
  by (simp add: cwd_events_def)

lemma landmark_startAttachMechanism:
  "filter landmark (snd (snd (startAttachMechanism e pid nspid attachPid tmpPath w))) =
     (if keeps_cwd e (euid w) (cwd_attach_path attachPid nspid)
         \<or> \<not> create_err e (tmp_attach_path tmpPath nspid)
      then [EvKill pid SIGQUIT] else [])"
proof -
  let ?path = "cwd_attach_path attachPid nspid"
  let ?path2 = "tmp_attach_path tmpPath nspid"
  consider (cwd) "keeps_cwd e (euid w) ?path"
    | (none) "\<not> keeps_cwd e (euid w) ?path" "create_err e ?path2"
    | (tmp) "\<not> keeps_cwd e (euid w) ?path" "\<not> create_err e ?path2"
    by blast
  then show ?thesis
  proof cases
    case cwd
    then show ?thesis
      by (simp add: startAttachMechanism_cwd Let_def landmark_poll)
  next
    case none
    then show ?thesis
      by (simp add: startAttachMechanism_none Let_def)
  next
    case tmp
    then show ?thesis
      by (simp add: startAttachMechanism_tmp Let_def landmark_poll)
  qed
qed

lemma landmark_connectSocket [simp]: "filter landmark (snd (connectSocket e pid tmpPath)) = []"
  by (simp add: connectSocket_def Let_def)

lemma landmark_writeCommand [simp]: "filter landmark (snd (writeCommand e args)) = []"
  by (simp add: writeCommand_def Let_def)

lemma landmark_readResponse [simp]: "filter landmark (snd (snd (readResponse args w))) = []"
  by (rule landmark_io) (rule readResponse_events)

lemma landmark_checkSocket [simp]: "filter landmark (snd (snd (checkSocket n t w))) = []"
  by (simp add: checkSocket_events)

lemma landmark_jattachHotspot:
  "filter landmark (snd (snd (jattachHotspot e pid nspid attachPid args tmpPath w))) =
     (if fst (checkSocket nspid tmpPath w) then []
      else filter landmark (snd (snd (startAttachMechanism e pid nspid attachPid tmpPath
                                         (fst (snd (checkSocket nspid tmpPath w)))))))"
proof -
  obtain present w1 ev1 where cs: "checkSocket nspid tmpPath w = (present, w1, ev1)"
    by (cases "checkSocket nspid tmpPath w") auto
  have ev1: "filter landmark ev1 = []"
    using landmark_checkSocket [of nspid tmpPath w] cs by simp
  obtain started w2 ev2 where sam: "startAttachMechanism e pid nspid attachPid tmpPath w1 = (started, w2, ev2)"
    by (cases "startAttachMechanism e pid nspid attachPid tmpPath w1") auto
  obtain connected ev3 where con: "connectSocket e nspid tmpPath = (connected, ev3)"
    by (cases "connectSocket e nspid tmpPath") auto
  have ev3: "filter landmark ev3 = []"
    using landmark_connectSocket [of e nspid tmpPath] con by simp
  obtain werr ev4 where wr: "writeCommand e args = (werr, ev4)"
    by (cases "writeCommand e args") auto
  have ev4: "filter landmark ev4 = []"
    using landmark_writeCommand [of e args] wr by simp
  have rr: "\<And>w' r w'' evs. readResponse args w' = (r, w'', evs) \<Longrightarrow> filter landmark evs = []"
    using landmark_readResponse by (metis snd_conv)
  show ?thesis
    using cs sam con wr ev1 ev3 ev4
    by (auto simp: jattachHotspot_def split: prod.splits dest: rr)
qed

subsection \<open>The three ways through Jattach\<close>

lemma cred_world_simps [simp]:
  "files (cred_world e w targetUID targetGID) = files w"
  "checks (cred_world e w targetUID targetGID) = checks w"
  "sock (cred_world e w targetUID targetGID) = sock w"
  by (simp_all add: cred_world_def)

lemma cred_world_matched [simp]:
  "\<not> cred_failed e w targetUID targetGID \<Longrightarrow> euid (cred_world e w targetUID targetGID) = targetUID"
  "\<not> cred_failed e w targetUID targetGID \<Longrightarrow> egid (cred_world e w targetUID targetGID) = targetGID"
  by (auto simp: cred_world_def cred_failed_def)

lemma Jattach_not_found:
  assumes "proc_info e pid = None"
  shows "Jattach e pid argv w = (Inr 1, w, [EvGetProcessInfo pid, EvLog ''process not found''])"
  using assms by (simp add: Jattach_def)

lemma Jattach_cred_failed:
  assumes "proc_info e pid = Some (targetUID, targetGID, nspid)"
    and "cred_failed e w targetUID targetGID"
  shows "Jattach e pid argv w =
     (Inr 1, cred_world e w targetUID targetGID,
      enter_events pid @ cred_calls e w targetUID targetGID
      @ [EvLog ''failed to change credentials to match the target process''])"
  using assms
  by (auto simp: Jattach_def Let_def cred_failed_def cred_calls_def cred_world_def enter_events_def)

lemma Jattach_attach:
  assumes "proc_info e pid = Some (targetUID, targetGID, nspid)"
    and "\<not> cred_failed e w targetUID targetGID"
  shows "Jattach e pid argv w =
     (let attachPid = (if enter_ns e pid ''mnt'' > 0 then nspid else pid);
          run = jattachHotspot e pid nspid attachPid argv (tmp_path e attachPid)
                  (cred_world e w targetUID targetGID)
      in (fst run, fst (snd run),
          enter_events pid @ cred_calls e w targetUID targetGID
          @ [EvGetTmpPath attachPid, EvSignalIgnore SIGPIPE] @ snd (snd run) @ [EvCloseOut]))"
  using assms
  by (auto simp: Jattach_def Let_def cred_failed_def cred_calls_def cred_world_def enter_events_def
        split: prod.splits)

lemma landmark_enter [simp]: "filter landmark (enter_events pid) = []"
  by (simp add: enter_events_def)

lemma landmark_cred [simp]:
  "filter landmark (cred_calls e w targetUID targetGID) = cred_calls e w targetUID targetGID"
  by (simp add: cred_calls_def)

lemma landmark_Jattach:
  "filter landmark (snd (snd (Jattach e pid argv w))) =
     (case proc_info e pid of
        None \<Rightarrow> []
      | Some (targetUID, targetGID, nspid) \<Rightarrow>
          cred_calls e w targetUID targetGID
          @ (if cred_failed e w targetUID targetGID then []
             else (let attachPid = (if enter_ns e pid ''mnt'' > 0 then nspid else pid) in
                   filter landmark
                     (snd (snd (jattachHotspot e pid nspid attachPid argv (tmp_path e attachPid)
                                  (cred_world e w targetUID targetGID))))
                   @ [EvCloseOut])))"
proof (cases "proc_info e pid")
  case None
  then show ?thesis by (simp add: Jattach_not_found)
next
  case (Some t)
  obtain targetUID targetGID nspid where t: "t = (targetUID, targetGID, nspid)"
    by (cases t) auto
  show ?thesis
  proof (cases "cred_failed e w targetUID targetGID")
    case True
    with Some t show ?thesis by (simp add: Jattach_cred_failed)
  next
    case False
    with Some t show ?thesis by (simp add: Jattach_attach Let_def)
  qed
qed


lemma is_cred_landmark: "filter is_cred evs = filter is_cred (filter landmark evs)"
proof -
  have "\<And>ev. is_cred ev \<Longrightarrow> landmark ev"
    by (case_tac ev) auto
  then show ?thesis
    by (auto simp: filter_filter intro: filter_cong)
qed

lemma count_landmark: "count_list evs EvCloseOut = count_list (filter landmark evs) EvCloseOut"
  by (induction evs) auto

lemma kill_cred [simp]: "filter is_kill (cred_calls e w targetUID targetGID) = []"
  by (simp add: cred_calls_def)

lemma cred_cred [simp]:
  "filter is_cred (cred_calls e w targetUID targetGID) = cred_calls e w targetUID targetGID"
  by (simp add: cred_calls_def)

lemma count_cred [simp]: "count_list (cred_calls e w targetUID targetGID) EvCloseOut = 0"
  by (simp add: cred_calls_def)

lemma fst_checkSocket_cred [simp]:
  "fst (checkSocket n t (cred_world e w targetUID targetGID)) = fst (checkSocket n t w)"
  by (simp add: checkSocket_def Let_def)

lemma euid_checkSocket [simp]: "euid (fst (snd (checkSocket n t w))) = euid w"
  by (simp add: checkSocket_def Let_def)


lemma closes_Jattach:
  "count_list (snd (snd (Jattach e pid argv w))) EvCloseOut =
     (case proc_info e pid of
        None \<Rightarrow> 0
      | Some (targetUID, targetGID, nspid) \<Rightarrow> if cred_failed e w targetUID targetGID then 0 else 1)"
  by (subst count_landmark)
     (simp add: landmark_Jattach landmark_jattachHotspot landmark_startAttachMechanism Let_def
        split: option.splits)

lemma creds_Jattach:
  "filter is_cred (snd (snd (Jattach e pid argv w))) =
     (case proc_info e pid of
        None \<Rightarrow> []
      | Some (targetUID, targetGID, nspid) \<Rightarrow> cred_calls e w targetUID targetGID)"
  by (subst is_cred_landmark)
     (simp add: landmark_Jattach landmark_jattachHotspot landmark_startAttachMechanism Let_def
        split: option.splits)

subsection \<open>The time spent polling\<close>

lemma ramp_sum: "2 * sum_list (map (\<lambda>k. d + d * int k) [0..<m]) = d * int m * (int m + 1)"
  by (induction m) (simp_all add: algebra_simps)

lemma ramp_sum_bound:
  assumes "m \<le> 300"
  shows "sum_list (map (\<lambda>k. 20 * Millisecond + 20 * Millisecond * int k) [0..<m]) \<le> 903 * Second"
proof -
  have "int m * (int m + 1) \<le> 300 * 301"
    using assms by (intro mult_mono) simp_all
  then have "20 * Millisecond * (int m * (int m + 1)) \<le> 20 * Millisecond * (300 * 301)"
    by (simp add: Millisecond_def)
  with ramp_sum [of "20 * Millisecond" m] show ?thesis
    by (simp add: Second_def Millisecond_def algebra_simps)
qed

lemma ramp_sum_full:
  "sum_list (map (\<lambda>k. 20 * Millisecond + 20 * Millisecond * int k) [0..<300]) = 903 * Second"
  using ramp_sum [of "20 * Millisecond" 300] by (simp add: Second_def Millisecond_def)

lemma kill_cwd [simp]: "EvKill p s \<notin> set (cwd_events e path)"
  by (simp add: cwd_events_def)

lemma startAttachMechanism_sleeps:
  "\<exists>m\<le>300.
     sleeps (snd (snd (startAttachMechanism e pid nspid attachPid tmpPath w)))
       = map (\<lambda>k. 20 * Millisecond + 20 * Millisecond * int k) [0..<m]
     \<and> (\<not> fst (startAttachMechanism e pid nspid attachPid tmpPath w)
          \<and> EvKill pid SIGQUIT \<in> set (snd (snd (startAttachMechanism e pid nspid attachPid tmpPath w)))
        \<longrightarrow> m = 300)"
proof -
  let ?path = "cwd_attach_path attachPid nspid"
  let ?path2 = "tmp_attach_path tmpPath nspid"
  have poll0: "\<And>path w1. \<exists>m\<le>300.
      sleeps (snd (snd (poll e 0 (20 * Millisecond) nspid tmpPath path w1)))
        = map (\<lambda>k. 20 * Millisecond + 20 * Millisecond * int k) [0..<m]
      \<and> (\<not> fst (poll e 0 (20 * Millisecond) nspid tmpPath path w1) \<longrightarrow> m = 300)"
    using poll_sleeps [where i = 0 and ts = "20 * Millisecond" and nspid = nspid and tmpPath = tmpPath and e = e] by fastforce
  consider (cwd) "keeps_cwd e (euid w) ?path"
    | (none) "\<not> keeps_cwd e (euid w) ?path" "create_err e ?path2"
    | (tmp) "\<not> keeps_cwd e (euid w) ?path" "\<not> create_err e ?path2"
    by blast
  then show ?thesis
  proof cases
    case cwd
    from poll0 [of ?path "w\<lparr>files := insert ?path (files w)\<rparr>"] show ?thesis
      by (simp add: startAttachMechanism_cwd [OF cwd] Let_def)
  next
    case none
    have "sleeps (snd (snd (startAttachMechanism e pid nspid attachPid tmpPath w))) = []"
      and "EvKill pid SIGQUIT \<notin> set (snd (snd (startAttachMechanism e pid nspid attachPid tmpPath w)))"
      by (simp_all add: startAttachMechanism_none [OF none] Let_def)
    then show ?thesis
      by (intro exI [of _ 0]) simp
  next
    case tmp
    from poll0 [of ?path2 "(cwd_world e ?path w)\<lparr>files := insert ?path2 (files (cwd_world e ?path w))\<rparr>"]
    show ?thesis
      by (simp add: startAttachMechanism_tmp [OF tmp] Let_def)
  qed
qed

subsection \<open>Parsing and relaying\<close>

lemma Atoi_syntax_error:
  "\<not> list_all is_digit (tl s) \<Longrightarrow> Atoi s = (0, True)"
  by (cases s) (auto simp: Atoi_def Let_def)

lemma drain_data:
  "d \<noteq> [] \<Longrightarrow> Read L s = (Some d, s') \<Longrightarrow>
     drain L s = (fst (drain L s'), [EvRead L, EvSend d] @ snd (drain L s'))"
  by (subst drain.simps) (simp split: prod.splits)

lemma drain_end: "drain L [] = ([], [EvRead L])"
  by (subst drain.simps) simp

section \<open>The claims\<close>

subsection \<open>Claim C1\<close>

text \<open>
  Claim C1 says that \<open>Jattach\<close> closes the output channel exactly once on every exit path,
  the process-not-found and the credential-failure returns included. The deferred
  \<open>close(out)\<close> is registered after these two returns, so on them the channel is never
  closed: for a PID that \<open>GetProcessInfo\<close> does not find, and for a target whose group the
  process may not take, the run holds no \<open>EvCloseOut\<close>. On the path that reaches
  \<open>jattachHotspot\<close> it holds exactly one.
\<close>

theorem Jattach_early_return_leaves_out_open:
  "Jattach (quiet_env\<lparr>proc_info := (\<lambda>pid. None)\<rparr>) 1234 [''threaddump''] empty_world
     = (Inr 1, empty_world, [EvGetProcessInfo 1234, EvLog ''process not found''])
   \<and> count_list (snd (snd (Jattach (quiet_env\<lparr>proc_info := (\<lambda>pid. None)\<rparr>) 1234
                               [''threaddump''] empty_world))) EvCloseOut = 0
   \<and> count_list (snd (snd (Jattach (quiet_env\<lparr>proc_info := (\<lambda>pid. Some (0, 0, pid)),
                                               setegid_err := (\<lambda>gid. True)\<rparr>) 1234
                               [''threaddump''] empty_world))) EvCloseOut = 0
   \<and> count_list (snd (snd (Jattach quiet_env 1234 [''threaddump''] empty_world))) EvCloseOut = 1"
  by (simp add: closes_Jattach Jattach_not_found cred_failed_def)

subsection \<open>Claim C2\<close>




subsection \<open>Claim C3\<close>

text \<open>
  Claim C3 says that for \<open>load\<close> the bytes \<open>return code: 0\<close> after the two header bytes give
  status 0, the bytes \<open>-5 extra text\<close> give status -5, and \<open>oops\<close> gives -1. The first and
  the third hold for every two header bytes. The second does not: \<open>strconv.Atoi\<close> rejects
  a number followed by anything else and the program drops its error, so the status is 0.
  Only when nothing follows the number is it -5.
\<close>

theorem readResponse_load_trailing_text:
  "fst (readResponse (''load'' # args) (w\<lparr>sock := Data (h1 # h2 # ''return code: 0'') # rest\<rparr>)) = Inr 0
   \<and> fst (readResponse (''load'' # args) (w\<lparr>sock := Data (h1 # h2 # ''-5 extra text'') # rest\<rparr>)) = Inr 0
   \<and> fst (readResponse (''load'' # args) (w\<lparr>sock := Data (h1 # h2 # ''oops'') # rest\<rparr>)) = Inr (- 1)
   \<and> fst (readResponse (''load'' # args) (w\<lparr>sock := Data (h1 # h2 # ''-5'') # rest\<rparr>)) = Inr (- 5)"
proof -
  have a: "Atoi (h1 # h2 # ''return code: 0'') = (0, True)"
    by (rule Atoi_syntax_error) (simp add: is_digit_def)
  have b: "Atoi (h1 # h2 # ''-5 extra text'') = (0, True)"
    by (rule Atoi_syntax_error) (simp add: is_digit_def)
  have c: "Atoi (h1 # h2 # ''oops'') = (0, True)"
    by (rule Atoi_syntax_error) (simp add: is_digit_def)
  have d: "Atoi (h1 # h2 # ''-5'') = (0, True)"
    by (rule Atoi_syntax_error) (simp add: is_digit_def)
  have tail: "Atoi ''-5 extra text'' = (0, True)"
    by (rule Atoi_syntax_error) (simp add: is_digit_def)
  have zero: "Atoi ''0'' = (0, False)" and five: "Atoi ''-5'' = (- 5, False)"
    by (simp_all add: Atoi_def Let_def is_digit_def digits_val_def)
  have "fst (readResponse (''load'' # args) (w\<lparr>sock := Data (h1 # h2 # ''return code: 0'') # rest\<rparr>)) = Inr 0"
    by (subst readResponse_status [where first = "h1 # h2 # ''return code: 0''" and ?s1.0 = rest])
       (simp_all add: a load_status_def HasPrefix_def zero)
  moreover
  have "fst (readResponse (''load'' # args) (w\<lparr>sock := Data (h1 # h2 # ''-5 extra text'') # rest\<rparr>)) = Inr 0"
    by (subst readResponse_status [where first = "h1 # h2 # ''-5 extra text''" and ?s1.0 = rest])
       (simp_all add: b load_status_def HasPrefix_def tail)
  moreover
  have "fst (readResponse (''load'' # args) (w\<lparr>sock := Data (h1 # h2 # ''oops'') # rest\<rparr>)) = Inr (- 1)"
    by (subst readResponse_status [where first = "h1 # h2 # ''oops''" and ?s1.0 = rest])
       (simp_all add: c load_status_def HasPrefix_def is_digit_def)
  moreover
  have "fst (readResponse (''load'' # args) (w\<lparr>sock := Data (h1 # h2 # ''-5'') # rest\<rparr>)) = Inr (- 5)"
    by (subst readResponse_status [where first = "h1 # h2 # ''-5''" and ?s1.0 = rest])
       (simp_all add: d load_status_def HasPrefix_def five)
  ultimately show ?thesis
    by blast
qed

subsection \<open>Claim C4\<close>

text \<open>
  Claim C4 says that for \<open>load\<close> the program keeps reading after the first read and collects
  more bytes before it derives the status. The loop that would do so starts with
  \<open>total = n = len(buf)\<close>, because \<open>buf\<close> was cut to its first \<open>n\<close> bytes just before, so its
  condition \<open>total < len(buf) - 1\<close> is false at once: no further read happens before the
  status is derived. When the reply arrives as \<open>0\<close>, a newline and \<open>re\<close>, and then as
  \<open>turn code: 0\<close>, the status is -1, derived from the first four bytes alone, and the rest
  of the reply is relayed as output, four bytes at a time.
\<close>

theorem readResponse_load_reads_once:
  "readMore (length first) (take (length first) first) s = (length first, first, s, [])
   \<and> readResponse [''load'']
        (empty_world\<lparr>sock := [Data (''0'' @ [CHR 0x0A] @ ''re''), Data ''turn code: 0'']\<rparr>)
      = (Inr (- 1), empty_world,
         [EvRead 8192, EvLog ''JVM response'',
          EvRead 4, EvSend ''turn'', EvRead 4, EvSend '' cod'', EvRead 4, EvSend ''e: 0'',
          EvRead 4, EvSend [CHR 0x0A]])"
proof -
  have a: "Atoi (''0'' @ [CHR 0x0A] @ ''re'') = (0, True)"
    by (rule Atoi_syntax_error) (simp add: is_digit_def)
  have d: "drain 4 [Data ''turn code: 0'']
             = ([], [EvRead 4, EvSend ''turn'', EvRead 4, EvSend '' cod'', EvRead 4, EvSend ''e: 0'',
                     EvRead 4])"
    by (simp add: drain_data [where d = "''turn''" and s' = "[Data '' code: 0'']"]
          drain_data [where d = "'' cod''" and s' = "[Data ''e: 0'']"]
          drain_data [where d = "''e: 0''" and s' = "[]"] drain_end)
  have four: "Suc (Suc (Suc (Suc 0))) = 4"
    by simp
  have "readMore (length first) (take (length first) first) s = (length first, first, s, [])"
    using readMore_at_end [of first s] by simp
  moreover
  have "readResponse [''load'']
          (empty_world\<lparr>sock := [Data (''0'' @ [CHR 0x0A] @ ''re''), Data ''turn code: 0'']\<rparr>)
        = (Inr (- 1), empty_world,
           [EvRead 8192, EvLog ''JVM response'',
            EvRead 4, EvSend ''turn'', EvRead 4, EvSend '' cod'', EvRead 4, EvSend ''e: 0'',
            EvRead 4, EvSend [CHR 0x0A]])"
    using a
    by (simp add: readResponse_def Let_def readMore.simps load_status_def HasPrefix_def is_digit_def
          empty_world_def four d)
  ultimately show ?thesis
    by blast
qed

subsection \<open>Claim C5\<close>

text \<open>
  Claim C5 says that a trigger file created by \<open>startAttachMechanism\<close> no longer exists
  when the call returns. The program calls \<open>os.Remove\<close> and drops its result. In this run the
  file in the working directory of the target is created, the socket appears at the first
  attempt, and the removal fails: the call returns true and the file is still there.
\<close>

theorem startAttachMechanism_trigger_file_left_behind:
  "fst (startAttachMechanism (quiet_env\<lparr>remove_err := (\<lambda>path. True)\<rparr>) 1234 1234 1234 ''/tmp''
          (empty_world\<lparr>checks := [True]\<rparr>))
   \<and> EvCreate (cwd_attach_path 1234 1234) True
       \<in> set (snd (snd (startAttachMechanism (quiet_env\<lparr>remove_err := (\<lambda>path. True)\<rparr>) 1234 1234
                           1234 ''/tmp'' (empty_world\<lparr>checks := [True]\<rparr>))))
   \<and> EvRemove (cwd_attach_path 1234 1234)
       \<in> set (snd (snd (startAttachMechanism (quiet_env\<lparr>remove_err := (\<lambda>path. True)\<rparr>) 1234 1234
                           1234 ''/tmp'' (empty_world\<lparr>checks := [True]\<rparr>))))
   \<and> cwd_attach_path 1234 1234
       \<in> files (fst (snd (startAttachMechanism (quiet_env\<lparr>remove_err := (\<lambda>path. True)\<rparr>) 1234 1234
                             1234 ''/tmp'' (empty_world\<lparr>checks := [True]\<rparr>))))"
proof -
  let ?e = "quiet_env\<lparr>remove_err := (\<lambda>path. True)\<rparr>"
  let ?w = "empty_world\<lparr>checks := [True]\<rparr>"
  have keep: "keeps_cwd ?e (euid ?w) (cwd_attach_path 1234 1234)"
    by (simp add: keeps_cwd_def)
  show ?thesis
    by (simp add: startAttachMechanism_cwd [OF keep] Let_def poll_found checkSocket_def
          os_Remove_def cwd_events_def)
qed

text \<open>
  Claim C5, amended. Whatever way \<open>startAttachMechanism\<close> takes (the socket appeared, the
  300 attempts ran out, the file in the working directory turned out to belong to another
  user), for every trigger file that it created it calls \<open>os.Remove\<close> on that path after
  the last creation of it, and the file is absent when the call returns unless
  \<open>os.Remove\<close> fails on that path.
\<close>

theorem startAttachMechanism_removes_trigger_file:
  assumes "startAttachMechanism e pid nspid attachPid tmpPath w = (r, w', evs)"
  shows "\<forall>p. EvCreate p True \<in> set evs \<longrightarrow>
           (\<exists>pre post. evs = pre @ EvRemove p # post \<and> EvCreate p True \<notin> set post)
           \<and> (\<not> remove_err e p \<longrightarrow> p \<notin> files w')"
proof (intro allI impI)
  fix p
  assume created: "EvCreate p True \<in> set evs"
  let ?path = "cwd_attach_path attachPid nspid"
  let ?path2 = "tmp_attach_path tmpPath nspid"
  let ?goal = "(\<exists>pre post. evs = pre @ EvRemove p # post \<and> EvCreate p True \<notin> set post)
               \<and> (\<not> remove_err e p \<longrightarrow> p \<notin> files w')"
  consider (cwd) "keeps_cwd e (euid w) ?path"
    | (none) "\<not> keeps_cwd e (euid w) ?path" "create_err e ?path2"
    | (tmp) "\<not> keeps_cwd e (euid w) ?path" "\<not> create_err e ?path2"
    by blast
  then show ?goal
  proof cases
    case cwd
    let ?w1 = "w\<lparr>files := insert ?path (files w)\<rparr>"
    obtain ppre where ppre: "snd (snd (poll e 0 (20 * Millisecond) nspid tmpPath ?path ?w1))
                               = ppre @ [EvRemove ?path]"
        "\<forall>q b. EvCreate q b \<notin> set ppre"
      using poll_last by blast
    from assms have evs: "evs = (cwd_events e ?path @ [EvKill pid SIGQUIT] @ ppre) @ EvRemove ?path # []"
      and w': "files w' = files (os_Remove e ?path ?w1)"
      by (auto simp: startAttachMechanism_cwd [OF cwd] Let_def ppre(1) poll_files)
    from created evs ppre(2) have p: "p = ?path"
      by (auto dest: create_cwd)
    have "\<exists>pre post. evs = pre @ EvRemove p # post \<and> EvCreate p True \<notin> set post"
      unfolding p using evs by (intro exI [of _ "cwd_events e ?path @ [EvKill pid SIGQUIT] @ ppre"]
                                      exI [of _ "[]"]) simp
    moreover have "\<not> remove_err e p \<longrightarrow> p \<notin> files w'"
      unfolding p w' by (simp add: os_Remove_def)
    ultimately show ?thesis
      by blast
  next
    case none
    from assms have evs: "evs = cwd_events e ?path @ EvRemove ?path # [EvCreate ?path2 False]"
      and w': "w' = cwd_world e ?path w"
      by (auto simp: startAttachMechanism_none [OF none] Let_def)
    from created evs have p: "p = ?path"
      by (auto dest: create_cwd)
    have "\<exists>pre post. evs = pre @ EvRemove p # post \<and> EvCreate p True \<notin> set post"
      unfolding p using evs by (intro exI [of _ "cwd_events e ?path"]
                                      exI [of _ "[EvCreate ?path2 False]"]) simp
    moreover have "\<not> remove_err e p \<longrightarrow> p \<notin> files w'"
      unfolding p w' by (simp add: cwd_world_removed)
    ultimately show ?thesis
      by blast
  next
    case tmp
    let ?w0 = "cwd_world e ?path w"
    let ?w1 = "?w0\<lparr>files := insert ?path2 (files ?w0)\<rparr>"
    obtain ppre where ppre: "snd (snd (poll e 0 (20 * Millisecond) nspid tmpPath ?path2 ?w1))
                               = ppre @ [EvRemove ?path2]"
        "\<forall>q b. EvCreate q b \<notin> set ppre"
      using poll_last by blast
    let ?mid = "[EvCreate ?path2 True, EvFileClose ?path2, EvKill pid SIGQUIT] @ ppre"
    from assms have evs: "evs = cwd_events e ?path @ EvRemove ?path # ?mid @ [EvRemove ?path2]"
      and w': "files w' = files (os_Remove e ?path2 ?w1)"
      by (auto simp: startAttachMechanism_tmp [OF tmp] Let_def ppre(1) poll_files)
    from created evs ppre(2) have p: "p = ?path \<or> p = ?path2"
      by (auto dest: create_cwd)
    show ?thesis
    proof (cases "p = ?path2")
      case True
      have "evs = (cwd_events e ?path @ EvRemove ?path # ?mid) @ EvRemove ?path2 # []"
        using evs by simp
      then have "\<exists>pre post. evs = pre @ EvRemove p # post \<and> EvCreate p True \<notin> set post"
        unfolding True by (intro exI [of _ "cwd_events e ?path @ EvRemove ?path # ?mid"]
                                 exI [of _ "[]"]) simp
      moreover have "\<not> remove_err e p \<longrightarrow> p \<notin> files w'"
        unfolding True w' by (simp add: os_Remove_def)
      ultimately show ?thesis
        by blast
    next
      case False
      with p have q: "p = ?path" and ne: "?path \<noteq> ?path2"
        by auto
      have "EvCreate ?path True \<notin> set (?mid @ [EvRemove ?path2])"
        using ne ppre(2) by auto
      then have "\<exists>pre post. evs = pre @ EvRemove p # post \<and> EvCreate p True \<notin> set post"
        unfolding q using evs by (intro exI [of _ "cwd_events e ?path"]
                                        exI [of _ "?mid @ [EvRemove ?path2]"]) simp
      moreover have "\<not> remove_err e p \<longrightarrow> p \<notin> files w'"
        unfolding q w' using ne by (auto simp: os_Remove_def dest: cwd_world_removed [of e ?path w])
      ultimately show ?thesis
        by blast
    qed
  qed
qed

text \<open>
  A run in which no removal fails, the file in the working directory belongs to another
  user, the file in the temporary directory is created, and the socket appears at the
  second attempt: both files were created and both are gone.
\<close>

theorem startAttachMechanism_removes_trigger_file_witness:
  "EvCreate (cwd_attach_path 7 7) True
     \<in> set (snd (snd (startAttachMechanism (quiet_env\<lparr>stat_uid := (\<lambda>path. 0)\<rparr>) 1234 7 7 ''/tmp''
                         (empty_world\<lparr>checks := [False, True]\<rparr>))))
   \<and> EvCreate (tmp_attach_path ''/tmp'' 7) True
     \<in> set (snd (snd (startAttachMechanism (quiet_env\<lparr>stat_uid := (\<lambda>path. 0)\<rparr>) 1234 7 7 ''/tmp''
                         (empty_world\<lparr>checks := [False, True]\<rparr>))))
   \<and> \<not> remove_err (quiet_env\<lparr>stat_uid := (\<lambda>path. 0)\<rparr>) (cwd_attach_path 7 7)
   \<and> \<not> remove_err (quiet_env\<lparr>stat_uid := (\<lambda>path. 0)\<rparr>) (tmp_attach_path ''/tmp'' 7)
   \<and> cwd_attach_path 7 7
     \<notin> files (fst (snd (startAttachMechanism (quiet_env\<lparr>stat_uid := (\<lambda>path. 0)\<rparr>) 1234 7 7 ''/tmp''
                         (empty_world\<lparr>checks := [False, True]\<rparr>))))
   \<and> tmp_attach_path ''/tmp'' 7
     \<notin> files (fst (snd (startAttachMechanism (quiet_env\<lparr>stat_uid := (\<lambda>path. 0)\<rparr>) 1234 7 7 ''/tmp''
                         (empty_world\<lparr>checks := [False, True]\<rparr>))))"
proof -
  let ?e = "quiet_env\<lparr>stat_uid := (\<lambda>path. 0)\<rparr>"
  let ?X = "startAttachMechanism ?e 1234 7 7 ''/tmp'' (empty_world\<lparr>checks := [False, True]\<rparr>)"
  have no: "\<not> keeps_cwd ?e (euid (empty_world\<lparr>checks := [False, True]\<rparr>)) (cwd_attach_path 7 7)"
    by (simp add: keeps_cwd_def)
  have ok: "\<not> create_err ?e (tmp_attach_path ''/tmp'' 7)"
    by simp
  have created: "EvCreate (cwd_attach_path 7 7) True \<in> set (snd (snd ?X))"
    "EvCreate (tmp_attach_path ''/tmp'' 7) True \<in> set (snd (snd ?X))"
    by (simp_all add: startAttachMechanism_tmp [OF no ok] Let_def cwd_events_def)
  have rm: "\<not> remove_err ?e (cwd_attach_path 7 7)" "\<not> remove_err ?e (tmp_attach_path ''/tmp'' 7)"
    by simp_all
  have "?X = (fst ?X, fst (snd ?X), snd (snd ?X))"
    by simp
  from startAttachMechanism_removes_trigger_file [OF this] created rm show ?thesis
    by blast
qed

subsection \<open>Claim C6\<close>

text \<open>
  Claim C6. With no argument, with one argument and with four arguments, the request
  that \<open>writeCommand\<close> writes is the byte \<open>1\<close>, a NUL byte, and then exactly four slots,
  each the bytes of the argument (nothing for a missing one) followed by a NUL byte.
\<close>

theorem writeCommand_four_slots:
  "snd (writeCommand e []) = [EvWrite [CHR ''1'', CHR 0x00, CHR 0x00, CHR 0x00, CHR 0x00, CHR 0x00]]
   \<and> snd (writeCommand e [x]) =
       [EvWrite ([CHR ''1'', CHR 0x00] @ x @ [CHR 0x00] @ [CHR 0x00, CHR 0x00, CHR 0x00])]
   \<and> snd (writeCommand e [a, b, c, d]) =
       [EvWrite ([CHR ''1'', CHR 0x00] @ a @ [CHR 0x00] @ b @ [CHR 0x00] @ c @ [CHR 0x00] @ d @ [CHR 0x00])]"
  by (simp add: writeCommand_def writeCommand_loop.simps Let_def)

text \<open>
  The requests for no argument, for \<open>threaddump\<close> and for a \<open>load\<close> with three arguments.
\<close>

theorem writeCommand_four_slots_witness:
  "snd (writeCommand quiet_env []) = [EvWrite [CHR ''1'', CHR 0x00, CHR 0x00, CHR 0x00, CHR 0x00, CHR 0x00]]
   \<and> snd (writeCommand quiet_env [''threaddump'']) =
       [EvWrite (''1'' @ [CHR 0x00] @ ''threaddump'' @ [CHR 0x00, CHR 0x00, CHR 0x00, CHR 0x00])]
   \<and> snd (writeCommand quiet_env [''load'', ''instrument'', ''false'', ''/opt/agent.jar'']) =
       [EvWrite (''1'' @ [CHR 0x00] @ ''load'' @ [CHR 0x00] @ ''instrument'' @ [CHR 0x00]
                 @ ''false'' @ [CHR 0x00] @ ''/opt/agent.jar'' @ [CHR 0x00])]"
  using writeCommand_four_slots [of quiet_env "''threaddump''" "''load''" "''instrument''" "''false''" "''/opt/agent.jar''"]
  by simp

subsection \<open>Claim C7\<close>

text \<open>
  Claim C7. For a target that \<open>GetProcessInfo\<close> finds: when the effective group and user of
  the caller already equal the target's, \<open>Jattach\<close> makes no credential call. Otherwise the
  credential calls of the whole run are \<open>Setegid\<close> (when the groups differ) followed by
  \<open>Seteuid\<close> (when the users differ and the group switch did not fail), in this order. When
  a switch fails, \<open>Jattach\<close> returns 1 and the run consists of the lookup, the three
  namespace entries, the credential calls and the log message: no file, signal or socket
  call is made.
\<close>

theorem Jattach_credential_switch:
  assumes "proc_info e pid = Some (targetUID, targetGID, nspid)"
  shows "(egid w = targetGID \<and> euid w = targetUID
            \<longrightarrow> filter is_cred (snd (snd (Jattach e pid argv w))) = [])
       \<and> filter is_cred (snd (snd (Jattach e pid argv w)))
           = (if egid w \<noteq> targetGID then [EvSetegid targetGID] else [])
             @ (if \<not> (egid w \<noteq> targetGID \<and> setegid_err e targetGID) \<and> euid w \<noteq> targetUID
                then [EvSeteuid targetUID] else [])
       \<and> ((egid w \<noteq> targetGID \<and> setegid_err e targetGID)
             \<or> (euid w \<noteq> targetUID \<and> seteuid_err e targetUID)
            \<longrightarrow> fst (Jattach e pid argv w) = Inr 1
                \<and> snd (snd (Jattach e pid argv w)) =
                   [EvGetProcessInfo pid, EvEnterNS pid ''net'', EvEnterNS pid ''ipc'',
                    EvEnterNS pid ''mnt'']
                   @ filter is_cred (snd (snd (Jattach e pid argv w)))
                   @ [EvLog ''failed to change credentials to match the target process''])"
proof -
  have creds: "filter is_cred (snd (snd (Jattach e pid argv w))) = cred_calls e w targetUID targetGID"
    using assms by (simp add: creds_Jattach)
  have "cred_failed e w targetUID targetGID \<Longrightarrow>
          Jattach e pid argv w =
            (Inr 1, cred_world e w targetUID targetGID,
             enter_events pid @ cred_calls e w targetUID targetGID
             @ [EvLog ''failed to change credentials to match the target process''])"
    using assms by (rule Jattach_cred_failed)
  then show ?thesis
    unfolding creds by (auto simp: cred_calls_def cred_failed_def enter_events_def)
qed

text \<open>
  A caller whose credentials match makes no credential call; a caller with other credentials
  whose \<open>Seteuid\<close> fails has called \<open>Setegid\<close> and then \<open>Seteuid\<close>, and returns 1 right after.
\<close>

theorem Jattach_credential_switch_witness:
  "filter is_cred (snd (snd (Jattach quiet_env 1234 [''threaddump''] empty_world))) = []
   \<and> filter is_cred
         (snd (snd (Jattach (quiet_env\<lparr>proc_info := (\<lambda>pid. Some (0, 0, pid)),
                                       seteuid_err := (\<lambda>uid. True)\<rparr>) 1234 [''threaddump'']
                       empty_world)))
       = [EvSetegid 0, EvSeteuid 0]
   \<and> fst (Jattach (quiet_env\<lparr>proc_info := (\<lambda>pid. Some (0, 0, pid)), seteuid_err := (\<lambda>uid. True)\<rparr>)
             1234 [''threaddump''] empty_world) = Inr 1
   \<and> snd (snd (Jattach (quiet_env\<lparr>proc_info := (\<lambda>pid. Some (0, 0, pid)),
                                   seteuid_err := (\<lambda>uid. True)\<rparr>) 1234 [''threaddump''] empty_world))
       = [EvGetProcessInfo 1234, EvEnterNS 1234 ''net'', EvEnterNS 1234 ''ipc'',
          EvEnterNS 1234 ''mnt'', EvSetegid 0, EvSeteuid 0,
          EvLog ''failed to change credentials to match the target process'']"
proof -
  let ?e = "quiet_env\<lparr>proc_info := (\<lambda>pid. Some (0, 0, pid)), seteuid_err := (\<lambda>uid. True)\<rparr>"
  have a: "proc_info quiet_env 1234 = Some (1000, 1000, 1234)"
    by simp
  have b: "proc_info ?e 1234 = Some (0, 0, 1234)"
    by simp
  show ?thesis
    using Jattach_credential_switch [OF a, of empty_world "[''threaddump'']"] Jattach_credential_switch [OF b, of empty_world "[''threaddump'']"]
    by auto
qed

subsection \<open>Claim C8\<close>

text \<open>
  Claim C8 says that the worst case of the total sleeping time is roughly 15 seconds. When
  the trigger file is created and the socket never appears, the 300 sleeps of 20 ms, 40 ms,
  ..., 6000 ms add up to 903 seconds, more than sixty times 15 seconds.
\<close>

theorem startAttachMechanism_timeout_sleeps_903_seconds:
  "sum_list (sleeps (snd (snd (startAttachMechanism quiet_env 1234 1234 1234 ''/tmp'' empty_world))))
     = 903 * Second
   \<and> 60 * (15 * Second)
       < sum_list (sleeps (snd (snd (startAttachMechanism quiet_env 1234 1234 1234 ''/tmp'' empty_world))))"
proof -
  let ?X = "startAttachMechanism quiet_env 1234 1234 1234 ''/tmp'' empty_world"
  have keep: "keeps_cwd quiet_env (euid empty_world) (cwd_attach_path 1234 1234)"
    by (simp add: keeps_cwd_def)
  have "\<not> fst ?X" and "EvKill 1234 SIGQUIT \<in> set (snd (snd ?X))"
    by (simp_all add: startAttachMechanism_cwd [OF keep] Let_def poll_absent)
  with startAttachMechanism_sleeps [of quiet_env 1234 1234 1234 "''/tmp''" empty_world]
  have "sleeps (snd (snd ?X)) = map (\<lambda>k. 20 * Millisecond + 20 * Millisecond * int k) [0..<300]"
    by auto
  then have "sum_list (sleeps (snd (snd ?X))) = 903 * Second"
    by (simp only: ramp_sum_full)
  then show ?thesis
    by (simp add: Second_def Millisecond_def)
qed

text \<open>
  Claim C8, amended. \<open>startAttachMechanism\<close> sleeps at most 300 times; the sleep of attempt
  \<open>k\<close> (counted from 0) lasts \<open>20 ms + k * 20 ms\<close>; the total is at most 903 seconds (about
  15 minutes), and it is exactly 903 seconds, in 300 sleeps, whenever the signal was sent
  and the socket did not appear.
\<close>

theorem startAttachMechanism_poll_budget:
  assumes "startAttachMechanism e pid nspid attachPid tmpPath w = (r, w', evs)"
  shows "length (sleeps evs) \<le> 300
       \<and> (\<forall>k<length (sleeps evs). sleeps evs ! k = 20 * Millisecond + 20 * Millisecond * int k)
       \<and> sum_list (sleeps evs) \<le> 903 * Second
       \<and> (\<not> r \<and> EvKill pid SIGQUIT \<in> set evs
            \<longrightarrow> length (sleeps evs) = 300 \<and> sum_list (sleeps evs) = 903 * Second)"
proof -
  from startAttachMechanism_sleeps [of e pid nspid attachPid tmpPath w] assms
  obtain m where m: "m \<le> 300"
      "sleeps evs = map (\<lambda>k. 20 * Millisecond + 20 * Millisecond * int k) [0..<m]"
      "\<not> r \<and> EvKill pid SIGQUIT \<in> set evs \<longrightarrow> m = 300"
    by auto
  have "length (sleeps evs) \<le> 300"
    using m(1,2) by simp
  moreover have "\<forall>k<length (sleeps evs). sleeps evs ! k = 20 * Millisecond + 20 * Millisecond * int k"
    using m(2) by simp
  moreover have "sum_list (sleeps evs) \<le> 903 * Second"
    unfolding m(2) using m(1) by (rule ramp_sum_bound)
  moreover have "\<not> r \<and> EvKill pid SIGQUIT \<in> set evs
                   \<longrightarrow> length (sleeps evs) = 300 \<and> sum_list (sleeps evs) = 903 * Second"
    using m(2,3) ramp_sum_full by auto
  ultimately show ?thesis
    by blast
qed

text \<open>
  A run in which the socket appears at the second attempt sleeps 20 ms and 40 ms; a run in
  which it never appears returns false after 300 sleeps and 903 seconds.
\<close>

theorem startAttachMechanism_poll_budget_witness:
  "sleeps (snd (snd (startAttachMechanism quiet_env 1234 1234 1234 ''/tmp''
                       (empty_world\<lparr>checks := [False, True]\<rparr>))))
     = [20 * Millisecond, 40 * Millisecond]
   \<and> sum_list (sleeps (snd (snd (startAttachMechanism quiet_env 1234 1234 1234 ''/tmp''
                       (empty_world\<lparr>checks := [False, True]\<rparr>))))) \<le> 903 * Second
   \<and> \<not> fst (startAttachMechanism quiet_env 1234 1234 1234 ''/tmp'' empty_world)
   \<and> EvKill 1234 SIGQUIT
       \<in> set (snd (snd (startAttachMechanism quiet_env 1234 1234 1234 ''/tmp'' empty_world)))
   \<and> length (sleeps (snd (snd (startAttachMechanism quiet_env 1234 1234 1234 ''/tmp'' empty_world))))
       = 300
   \<and> sum_list (sleeps (snd (snd (startAttachMechanism quiet_env 1234 1234 1234 ''/tmp'' empty_world))))
       = 903 * Second"
proof -
  let ?X = "startAttachMechanism quiet_env 1234 1234 1234 ''/tmp'' (empty_world\<lparr>checks := [False, True]\<rparr>)"
  let ?Y = "startAttachMechanism quiet_env 1234 1234 1234 ''/tmp'' empty_world"
  have keep: "keeps_cwd quiet_env (euid empty_world) (cwd_attach_path 1234 1234)"
    and keep': "keeps_cwd quiet_env (euid (empty_world\<lparr>checks := [False, True]\<rparr>))
                  (cwd_attach_path 1234 1234)"
    by (simp_all add: keeps_cwd_def)
  have x: "?X = (fst ?X, fst (snd ?X), snd (snd ?X))" and y: "?Y = (fst ?Y, fst (snd ?Y), snd (snd ?Y))"
    by simp_all
  have two: "sleeps (snd (snd ?X)) = [20 * Millisecond, 40 * Millisecond]"
    by (simp add: startAttachMechanism_cwd [OF keep'] Let_def poll_next poll_found checkSocket_def)
  have out: "\<not> fst ?Y" "EvKill 1234 SIGQUIT \<in> set (snd (snd ?Y))"
    by (simp_all add: startAttachMechanism_cwd [OF keep] Let_def poll_absent)
  from startAttachMechanism_poll_budget [OF x] startAttachMechanism_poll_budget [OF y] two out show ?thesis
    by simp
qed

subsection \<open>Claim C9\<close>

text \<open>
  Claim C9. When the first read succeeds with at least one byte and the whole of it parses
  to a nonzero integer, \<open>readResponse\<close> returns that integer, for \<open>load\<close> as for every other
  command: the status derived in the \<open>load\<close> branch is the parsed integer itself unless that
  integer is 0.
\<close>

theorem readResponse_nonzero_status_kept:
  assumes "Read 8192 (sock w) = (Some first, s1)" and "first \<noteq> []" and "fst (Atoi first) \<noteq> 0"
  shows "fst (readResponse args w) = Inr (fst (Atoi first))
       \<and> load_status (fst (Atoi first)) buf = Inr (fst (Atoi first))"
  using assms by (simp add: readResponse_status load_status_def)

text \<open>
  A \<open>load\<close> whose first read is \<open>-3\<close> returns -3, whatever follows.
\<close>

theorem readResponse_nonzero_status_kept_witness:
  "Read 8192 (sock (empty_world\<lparr>sock := [Data ''-3'', Data ''return code: 0'']\<rparr>))
     = (Some ''-3'', [Data ''return code: 0''])
   \<and> fst (Atoi ''-3'') = - 3
   \<and> fst (readResponse [''load''] (empty_world\<lparr>sock := [Data ''-3'', Data ''return code: 0'']\<rparr>))
       = Inr (- 3)"
proof -
  have r: "Read 8192 (sock (empty_world\<lparr>sock := [Data ''-3'', Data ''return code: 0'']\<rparr>))
             = (Some ''-3'', [Data ''return code: 0''])"
    by simp
  have a: "Atoi ''-3'' = (- 3, False)"
    by (simp add: Atoi_def Let_def is_digit_def digits_val_def)
  from readResponse_nonzero_status_kept [OF r, of "[''load'']"] a r show ?thesis
    by simp
qed

subsection \<open>Claim C10\<close>

text \<open>
  Claim C10. In both copies of \<open>main\<close> the exit code does not depend on what
  \<open>EnableDynamicAgentLoading\<close> returns. With valid arguments the call is made before
  \<open>Jattach\<close>, its error or status is only printed (or logged), and the run goes on with
  \<open>Jattach\<close> on the same PID and arguments, whose result is the result of \<open>main\<close>.
\<close>

theorem main_EnableDynamicAgentLoading_not_fatal:
  "fst (main EnableDynamicAgentLoading e Args w) = fst (main EnableDynamicAgentLoading' e Args w)
   \<and> fst (main_part_000 EnableDynamicAgentLoading e Args w)
       = fst (main_part_000 EnableDynamicAgentLoading' e Args w)
   \<and> (3 \<le> length Args \<and> Atoi (Args ! 1) = (pid, False) \<and> 0 < pid \<and> validCommand (Args ! 2)
        \<longrightarrow> main EnableDynamicAgentLoading e Args w =
              (fst (Jattach e pid (drop 2 Args) w), fst (snd (Jattach e pid (drop 2 Args) w)),
               [EvEnableDynamicAgentLoading pid,
                if snd (EnableDynamicAgentLoading pid)
                then EvPrint ''encountered error while enabling dynamic loading''
                else EvPrint (''dynamic loading status '' @ Itoa (fst (EnableDynamicAgentLoading pid)))]
               @ snd (snd (Jattach e pid (drop 2 Args) w)))
            \<and> main_part_000 EnableDynamicAgentLoading e Args w =
              (fst (Jattach e pid (drop 2 Args) w), fst (snd (Jattach e pid (drop 2 Args) w)),
               [EvEnableDynamicAgentLoading pid,
                if snd (EnableDynamicAgentLoading pid)
                then EvLog ''encountered error while enabling dynamic loading''
                else EvLog ''dynamic loading status'']
               @ snd (snd (Jattach e pid (drop 2 Args) w))))"
  by (auto simp: main_def main_part_000_def Let_def split: prod.splits)

text \<open>
  With \<open>jattach 1234 threaddump\<close> an error from \<open>EnableDynamicAgentLoading\<close> is printed and
  \<open>Jattach\<close> runs as it does without the error.
\<close>

theorem main_EnableDynamicAgentLoading_not_fatal_witness:
  "Atoi ''1234'' = (1234, False) \<and> validCommand ''threaddump''
   \<and> fst (main (\<lambda>pid. (0, True)) quiet_env [''jattach'', ''1234'', ''threaddump''] empty_world)
       = fst (main (\<lambda>pid. (0, False)) quiet_env [''jattach'', ''1234'', ''threaddump''] empty_world)
   \<and> main (\<lambda>pid. (0, True)) quiet_env [''jattach'', ''1234'', ''threaddump''] empty_world =
       (fst (Jattach quiet_env 1234 [''threaddump''] empty_world),
        fst (snd (Jattach quiet_env 1234 [''threaddump''] empty_world)),
        [EvEnableDynamicAgentLoading 1234,
         EvPrint ''encountered error while enabling dynamic loading'']
        @ snd (snd (Jattach quiet_env 1234 [''threaddump''] empty_world)))"
proof -
  have a: "Atoi ''1234'' = (1234, False)"
    by (simp add: Atoi_def Let_def is_digit_def digits_val_def)
  have v: "validCommand ''threaddump''"
    by (simp add: validCommand_def)
  from main_EnableDynamicAgentLoading_not_fatal [of "\<lambda>pid. (0, True)" quiet_env "[''jattach'', ''1234'', ''threaddump'']" empty_world
              "\<lambda>pid. (0, False)" 1234] a v
  show ?thesis
    by auto
qed

end
